theory Spec2Isabelle
  imports Complex_Main "HOL-Library.Sublist"
begin

section \<open>Python strings\<close>

text \<open>
  A Python \<^verbatim>\<open>str\<close> is a \<^typ>\<open>string\<close>. \<^verbatim>\<open>str.lower()\<close> and \<^verbatim>\<open>str.upper()\<close> are
  modelled on the ASCII letters; every other character is left as it is.
\<close>

definition lower_char :: "char \<Rightarrow> char" where
  "lower_char c =
     (let n = (of_char c :: nat) in if 65 \<le> n \<and> n \<le> 90 then char_of (n + 32) else c)"

definition upper_char :: "char \<Rightarrow> char" where
  "upper_char c =
     (let n = (of_char c :: nat) in if 97 \<le> n \<and> n \<le> 122 then char_of (n - 32) else c)"

definition lower :: "string \<Rightarrow> string" where
  "lower s = map lower_char s"

definition upper :: "string \<Rightarrow> string" where
  "upper s = map upper_char s"

text \<open>\<^verbatim>\<open>sub in s\<close> on two strings: \<open>sub\<close> occurs in \<open>s\<close> as a contiguous run.\<close>

definition py_in :: "string \<Rightarrow> string \<Rightarrow> bool" where
  "py_in sub s = sublist sub s"

section \<open>The static catalogue: \<^verbatim>\<open>keyword_search.py\<close>\<close>

text \<open>
  A dict literal is the list of its items in the order written. \<^verbatim>\<open>search_bill\<close> prints
  one line and returns a list of dicts; the model returns the printed line with the list.
\<close>

type_synonym static_bill = "(string \<times> string) list"

definition climate_bills :: "static_bill list" where
  "climate_bills =
     [[(''title'', ''Clean Air Act Amendment of 2025''),
       (''status'', ''Passed House, Awaiting Senate Vote''),
       (''bill_id'', ''hr3684'')],
      [(''title'', ''Climate Change Mitigation Bill''),
       (''status'', ''Introduced''),
       (''bill_id'', ''s1234'')]]"

definition education_bills :: "static_bill list" where
  "education_bills =
     [[(''title'', ''Student Loan Forgiveness Act''),
       (''status'', ''In Committee''),
       (''bill_id'', ''hr5678'')]]"

definition search_bill :: "string \<Rightarrow> string \<times> static_bill list" where
  "search_bill keyword =
     (''Searching for bills with the keyword: '' @ [CHR 0x27] @ keyword @ [CHR 0x27] @ ''...'',
      if py_in ''climate'' (lower keyword) then climate_bills
      else if py_in ''education'' (lower keyword) then education_bills
      else [])"

section \<open>Parsed JSON and the Python operations on it\<close>

text \<open>
  What \<^verbatim>\<open>response.json()\<close> returns: \<^verbatim>\<open>None\<close>, a bool, an int, a float, a str, a list
  or a dict. A dict is the list of its items in insertion order and is read through
  \<^const>\<open>map_of\<close>. The code never computes with a number, it only tests it for zero, so a
  float is kept as the rational it denotes.
\<close>

datatype json =
    JNull
  | JBool bool
  | JInt int
  | JFloat rat
  | JStr string
  | JArr "json list"
  | JObj "(string \<times> json) list"

text \<open>
  The exceptions of the program. \<open>HTTPError\<close> carries the status code of the response it
  was raised for; \<open>KeyError\<close> carries the missing key.
\<close>

datatype exc =
    HTTPError int
  | ConnectionError
  | ConnectTimeout
  | Timeout
  | RequestException
  | JSONDecodeError
  | KeyError json
  | TypeError
  | AttributeError
  | IndexError
  | OtherException
  | UnboundLocalError

text \<open>\<^verbatim>\<open>if x:\<close> and \<^verbatim>\<open>if not x:\<close> on a parsed value.\<close>

fun truthy :: "json \<Rightarrow> bool" where
  "truthy JNull = False"
| "truthy (JBool b) = b"
| "truthy (JInt n) = (n \<noteq> 0)"
| "truthy (JFloat q) = (q \<noteq> 0)"
| "truthy (JStr s) = (s \<noteq> [])"
| "truthy (JArr xs) = (xs \<noteq> [])"
| "truthy (JObj kvs) = (kvs \<noteq> [])"

text \<open>\<^verbatim>\<open>x.get(key, default)\<close>: only a dict has the method.\<close>

fun py_get :: "json \<Rightarrow> string \<Rightarrow> json \<Rightarrow> exc + json" where
  "py_get (JObj kvs) key dflt = Inr (case map_of kvs key of None \<Rightarrow> dflt | Some v \<Rightarrow> v)"
| "py_get _ key dflt = Inl AttributeError"

text \<open>\<^verbatim>\<open>x[key]\<close> with a string key, as in \<^verbatim>\<open>bill["id"]\<close>.\<close>

fun getitem_str :: "json \<Rightarrow> string \<Rightarrow> exc + json" where
  "getitem_str (JObj kvs) key =
     (case map_of kvs key of None \<Rightarrow> Inl (KeyError (JStr key)) | Some v \<Rightarrow> Inr v)"
| "getitem_str _ key = Inl TypeError"

text \<open>
  \<^verbatim>\<open>x[-1]\<close>, as in \<^verbatim>\<open>actions[-1]\<close>. The keys of a parsed dict are strings, so a dict
  never has the key \<open>-1\<close>.
\<close>

fun getitem_last :: "json \<Rightarrow> exc + json" where
  "getitem_last (JArr xs) = (if xs = [] then Inl IndexError else Inr (last xs))"
| "getitem_last (JStr s) = (if s = [] then Inl IndexError else Inr (JStr [last s]))"
| "getitem_last (JObj kvs) = Inl (KeyError (JInt (- 1)))"
| "getitem_last _ = Inl TypeError"

text \<open>
  The elements a \<^verbatim>\<open>for\<close> loop or a comprehension draws from a value: the elements of a
  list, the characters of a str, the keys of a dict; anything else is not iterable.
\<close>

fun py_iter :: "json \<Rightarrow> exc + json list" where
  "py_iter (JArr xs) = Inr xs"
| "py_iter (JStr s) = Inr (map (\<lambda>c. JStr [c]) s)"
| "py_iter (JObj kvs) = Inr (map (\<lambda>kv. JStr (fst kv)) kvs)"
| "py_iter _ = Inl TypeError"

text \<open>
  Sequencing of two steps of which the first may raise: the exception of the first step
  ends the computation, its value goes to the second.
\<close>

definition ebind :: "exc + 'a \<Rightarrow> ('a \<Rightarrow> exc + 'b) \<Rightarrow> exc + 'b" where
  "ebind m f = (case m of Inl e \<Rightarrow> Inl e | Inr x \<Rightarrow> f x)"

text \<open>\<^verbatim>\<open>sep.join(xs)\<close> on strings, and on parsed values, where every item must be a str.\<close>

fun join :: "string \<Rightarrow> string list \<Rightarrow> string" where
  "join sep [] = []"
| "join sep [x] = x"
| "join sep (x # y # ys) = x @ sep @ join sep (y # ys)"

fun str_items :: "json list \<Rightarrow> exc + string list" where
  "str_items [] = Inr []"
| "str_items (JStr s # xs) = ebind (str_items xs) (\<lambda>ss. Inr (s # ss))"
| "str_items (_ # xs) = Inl TypeError"

definition py_join :: "string \<Rightarrow> json list \<Rightarrow> exc + string" where
  "py_join sep xs = ebind (str_items xs) (\<lambda>ss. Inr (join sep ss))"

section \<open>Formatting one detail response: lines 71 to 98 of the loop body\<close>

text \<open>
  The dict appended to \<^verbatim>\<open>formatted_results\<close>. \<^verbatim>\<open>subjects\<close> is always a str, the result
  of \<^verbatim>\<open>join\<close> or the literal \<^verbatim>\<open>"N/A"\<close>; every other field is whatever value the
  response held under the key, or the default.
\<close>

record bill_summary =
  "identifier" :: json
  title :: json
  status :: json
  subjects :: string
  abstract :: json
  openstates_url :: json
  classification :: json

text \<open>
  \<^verbatim>\<open>[s.get("name", "") for s in ... if s.get("name")]\<close>, element by element: the
  condition is evaluated first and the first failing element raises.
\<close>

fun subject_names :: "json list \<Rightarrow> exc + json list" where
  "subject_names [] = Inr []"
| "subject_names (s # ss) =
     ebind (py_get s ''name'' JNull) (\<lambda>c.
       if truthy c then
         ebind (py_get s ''name'' (JStr [])) (\<lambda>n.
         ebind (subject_names ss) (\<lambda>ns. Inr (n # ns)))
       else subject_names ss)"

text \<open>Lines 75 to 79: the text of the latest action.\<close>

definition latest_action :: "json \<Rightarrow> exc + json" where
  "latest_action actions =
     (if truthy actions then
        ebind (getitem_last actions) (\<lambda>a. py_get a ''description'' (JStr ''No description.''))
      else Inr (JStr ''No recent action found.''))"

definition format_detail :: "json \<Rightarrow> exc + bill_summary" where
  "format_detail detail_data =
     ebind (py_get detail_data ''title'' (JStr ''N/A'')) (\<lambda>title'.
     ebind (py_get detail_data ''identifier'' (JStr ''N/A'')) (\<lambda>identifier'.
     ebind (py_get detail_data ''actions'' (JArr [])) (\<lambda>actions.
     ebind (latest_action actions) (\<lambda>latest_action_text.
     ebind (py_get detail_data ''subjects'' (JArr [])) (\<lambda>subjects_v.
     ebind (py_iter subjects_v) (\<lambda>subject_list.
     ebind (subject_names subject_list) (\<lambda>subjects'.
     ebind (py_get detail_data ''abstract'' (JStr ''No abstract available.'')) (\<lambda>abstract_text.
     ebind (py_get detail_data ''openstates_url'' (JStr ''No URL available.'')) (\<lambda>openstates_url'.
     ebind (py_get detail_data ''classification'' (JStr ''N/A'')) (\<lambda>classification'.
     ebind (if subjects' \<noteq> [] then py_join '', '' subjects' else Inr ''N/A'') (\<lambda>joined.
     Inr \<lparr>identifier = identifier', title = title', status = latest_action_text,
          subjects = joined, abstract = abstract_text, openstates_url = openstates_url',
          classification = classification'\<rparr>)))))))))))"

section \<open>The HTTP exchange\<close>

text \<open>
  An f-string is kept as the list of its pieces: the literal text, and each interpolated
  value as the value itself (a str, an int, a parsed value or an exception), not as the
  text Python renders for it.
\<close>

datatype piece = Lit string | Str string | Num int | Val json | Exc exc

type_synonym fstring = "piece list"

text \<open>
  The arguments of one \<^verbatim>\<open>requests.get\<close> call. The values of \<^verbatim>\<open>params\<close> are Python strs
  and ints, written \<open>JStr\<close> and \<open>JInt\<close>.
\<close>

record request =
  url :: fstring
  headers :: "(string \<times> string) list"
  params :: "(string \<times> json) list"

text \<open>
  A response: its status code, and its body as \<^verbatim>\<open>response.json()\<close> parses it, \<open>None\<close>
  when the body is not JSON.
\<close>

record http_response =
  status_code :: int
  body :: "json option"

text \<open>
  \<^verbatim>\<open>requests.get\<close> either returns a response or raises for a failure of the transport:
  no connection, a timeout while connecting, a timeout, another failure that \<^verbatim>\<open>requests\<close>
  reports as a \<^verbatim>\<open>RequestException\<close>, or an exception outside the hierarchy of
  \<^verbatim>\<open>requests\<close>. An \<^verbatim>\<open>HTTPError\<close> comes from \<^verbatim>\<open>raise_for_status\<close> alone.
\<close>

datatype transport_failure =
    ConnectionFailed
  | ConnectTimedOut
  | TimedOut
  | OtherRequestFailure
  | Unclassified

fun raised :: "transport_failure \<Rightarrow> exc" where
  "raised ConnectionFailed = ConnectionError"
| "raised ConnectTimedOut = ConnectTimeout"
| "raised TimedOut = Timeout"
| "raised OtherRequestFailure = RequestException"
| "raised Unclassified = OtherException"

text \<open>
  The server and the network are a transition function on a world \<open>'w\<close>: a request in a
  world gives an outcome and the next world, so the answer to a request may depend on
  every request before it.
\<close>

type_synonym outcome = "transport_failure + http_response"

type_synonym 'w http = "'w \<Rightarrow> request \<Rightarrow> outcome \<times> 'w"

text \<open>
  The state of one call: the world, the lines printed, the exchanges made so far in the
  order they were made, and the local variables \<^verbatim>\<open>response\<close>, \<^verbatim>\<open>data\<close> and
  \<^verbatim>\<open>formatted_results\<close>. A local that is not yet bound is \<open>None\<close>.
\<close>

record 'w st =
  world :: 'w
  out :: "fstring list"
  trace :: "(request \<times> outcome) list"
  response :: "http_response option"
  data :: "json option"
  formatted_results :: "bill_summary list"

definition init_st :: "'w \<Rightarrow> 'w st" where
  "init_st w =
     \<lparr>world = w, out = [], trace = [], response = None, data = None, formatted_results = []\<rparr>"

definition print :: "fstring \<Rightarrow> 'w st \<Rightarrow> 'w st" where
  "print line st = st\<lparr>out := out st @ [line]\<rparr>"

text \<open>Steps that read or change the state and may raise, and their sequencing.\<close>

type_synonym ('w, 'a) step = "'w st \<Rightarrow> (exc + 'a) \<times> 'w st"

definition sbind :: "('w, 'a) step \<Rightarrow> ('a \<Rightarrow> ('w, 'b) step) \<Rightarrow> ('w, 'b) step" where
  "sbind m f st = (case m st of (Inl e, st') \<Rightarrow> (Inl e, st') | (Inr x, st') \<Rightarrow> f x st')"

definition lift :: "exc + 'a \<Rightarrow> ('w, 'a) step" where
  "lift r st = (r, st)"

definition exec :: "('w st \<Rightarrow> 'w st) \<Rightarrow> ('w, unit) step" where
  "exec f st = (Inr (), f st)"

definition requests_get :: "'w http \<Rightarrow> request \<Rightarrow> ('w, http_response) step" where
  "requests_get get rq st =
     (case get (world st) rq of
        (res, w') \<Rightarrow>
          (case res of Inl f \<Rightarrow> Inl (raised f) | Inr r \<Rightarrow> Inr r,
           st\<lparr>world := w', trace := trace st @ [(rq, res)]\<rparr>))"

text \<open>\<^verbatim>\<open>raise_for_status\<close> raises for a status code from 400 to 599.\<close>

definition raise_for_status :: "http_response \<Rightarrow> exc + unit" where
  "raise_for_status r =
     (if 400 \<le> status_code r \<and> status_code r < 600 then Inl (HTTPError (status_code r))
      else Inr ())"

text \<open>
  \<^verbatim>\<open>response.json()\<close>. The exception for a body that is not JSON is a
  \<^verbatim>\<open>RequestException\<close> in \<^verbatim>\<open>requests\<close> from version 2.27 on.
\<close>

definition json_of :: "http_response \<Rightarrow> exc + json" where
  "json_of r = (case body r of None \<Rightarrow> Inl JSONDecodeError | Some d \<Rightarrow> Inr d)"

section \<open>\<^verbatim>\<open>search_bill_openstates\<close>\<close>

definition OPENSTATES_BASE_URL :: string where
  "OPENSTATES_BASE_URL = ''https://v3.openstates.org''"

text \<open>
  \<^verbatim>\<open>OPENSTATES_API_KEY\<close> is imported from a module that is not part of the sources; it is
  the parameter \<open>api_key\<close>.
\<close>

definition search_request :: "string \<Rightarrow> string \<Rightarrow> string \<Rightarrow> string \<Rightarrow> int \<Rightarrow> request" where
  "search_request api_key keyword jurisdiction session limit =
     \<lparr>url = [Str OPENSTATES_BASE_URL, Lit ''/bills''],
      headers = [(''X-API-KEY'', api_key)],
      params =
        [(''q'', JStr keyword),
         (''jurisdiction'', JStr (lower jurisdiction)),
         (''session'', JStr session),
         (''classification'', JStr ''bill''),
         (''sort'', JStr ''latest_action_desc''),
         (''page'', JInt 1),
         (''per_page'', JInt limit)]\<rparr>"

definition detail_request :: "string \<Rightarrow> json \<Rightarrow> request" where
  "detail_request api_key bill_id =
     \<lparr>url = [Str OPENSTATES_BASE_URL, Lit ''/bills/'', Val bill_id],
      headers = [(''X-API-KEY'', api_key)],
      params = []\<rparr>"

text \<open>
  The \<^verbatim>\<open>for\<close> loop of lines 59 to 98 over the elements still to visit, \<open>i\<close> being the
  index \<^verbatim>\<open>enumerate\<close> gives the first of them.
\<close>

fun loop :: "'w http \<Rightarrow> string \<Rightarrow> int \<Rightarrow> nat \<Rightarrow> json list \<Rightarrow> ('w, unit) step" where
  "loop get api_key limit i [] st = (Inr (), st)"
| "loop get api_key limit i (bill # rest) st =
     (if limit \<le> int i then (Inr (), st)
      else
        sbind (lift (getitem_str bill ''id'')) (\<lambda>bill_id.
        sbind (requests_get get (detail_request api_key bill_id)) (\<lambda>detail_resp.
        sbind (lift (raise_for_status detail_resp)) (\<lambda>_.
        sbind (lift (json_of detail_resp)) (\<lambda>detail_data.
        sbind (lift (format_detail detail_data)) (\<lambda>row.
        sbind (exec (\<lambda>st'. st'\<lparr>formatted_results := formatted_results st' @ [row]\<rparr>)) (\<lambda>_ st'.
        loop get api_key limit (Suc i) rest st')))))) st)"

text \<open>The line printed at line 54.\<close>

definition no_bills_line :: "string \<Rightarrow> string \<Rightarrow> fstring" where
  "no_bills_line keyword jurisdiction =
     [Lit ''No initial bills found for '', Lit [CHR 0x27], Str keyword, Lit [CHR 0x27],
      Lit '' in '', Str (upper jurisdiction), Lit ''.'']"

text \<open>The body of the \<^verbatim>\<open>try\<close>, lines 46 to 99.\<close>

definition try_body ::
  "'w http \<Rightarrow> string \<Rightarrow> string \<Rightarrow> string \<Rightarrow> string \<Rightarrow> int \<Rightarrow> ('w, bill_summary list) step" where
  "try_body get api_key keyword jurisdiction session limit =
     sbind (requests_get get (search_request api_key keyword jurisdiction session limit)) (\<lambda>resp.
     sbind (exec (\<lambda>st. st\<lparr>response := Some resp\<rparr>)) (\<lambda>_.
     sbind (lift (raise_for_status resp)) (\<lambda>_.
     sbind (lift (json_of resp)) (\<lambda>d.
     sbind (exec (\<lambda>st. st\<lparr>data := Some d\<rparr>)) (\<lambda>_.
     sbind (lift (py_get d ''results'' (JArr []))) (\<lambda>bills_found.
     if \<not> truthy bills_found then
       sbind (exec (print (no_bills_line keyword jurisdiction))) (\<lambda>_. lift (Inr []))
     else
       sbind (lift (py_iter bills_found)) (\<lambda>items.
       sbind (loop get api_key limit 0 items) (\<lambda>_ st.
       (Inr (formatted_results st), st)))))))))"

text \<open>The classes an \<^verbatim>\<open>except\<close> clause tests for, with their subclasses.\<close>

fun is_HTTPError :: "exc \<Rightarrow> bool" where
  "is_HTTPError (HTTPError _) = True"
| "is_HTTPError _ = False"

fun is_ConnectionError :: "exc \<Rightarrow> bool" where
  "is_ConnectionError ConnectionError = True"
| "is_ConnectionError ConnectTimeout = True"
| "is_ConnectionError _ = False"

fun is_Timeout :: "exc \<Rightarrow> bool" where
  "is_Timeout Timeout = True"
| "is_Timeout ConnectTimeout = True"
| "is_Timeout _ = False"

fun is_RequestException :: "exc \<Rightarrow> bool" where
  "is_RequestException (HTTPError _) = True"
| "is_RequestException ConnectionError = True"
| "is_RequestException ConnectTimeout = True"
| "is_RequestException Timeout = True"
| "is_RequestException RequestException = True"
| "is_RequestException JSONDecodeError = True"
| "is_RequestException _ = False"

fun is_KeyError :: "exc \<Rightarrow> bool" where
  "is_KeyError (KeyError _) = True"
| "is_KeyError _ = False"

text \<open>
  The \<^verbatim>\<open>except\<close> clauses, lines 101 to 123, in their order. A clause that reads a local
  which is not bound raises \<^verbatim>\<open>UnboundLocalError\<close>, and that exception leaves the function.
\<close>

definition api_key_hint :: fstring where
  "api_key_hint = [Lit ''Please check if your OpenStates API key is correct and valid.'']"

definition handler :: "exc \<Rightarrow> ('w, bill_summary list) step" where
  "handler e st =
     (if is_HTTPError e then
        (case response st of
           None \<Rightarrow> (Inl UnboundLocalError, st)
         | Some r \<Rightarrow>
             (let st1 = print [Lit ''HTTP error occurred: '', Exc e, Lit '' (Status code: '',
                               Num (status_code r), Lit '')''] st;
                  st2 = (if status_code r = 401 \<or> status_code r = 403
                         then print api_key_hint st1 else st1)
              in (Inr [], st2)))
      else if is_ConnectionError e then
        (Inr [], print [Lit ''Please check your internet connection.'']
                   (print [Lit ''Connection error occurred: '', Exc e] st))
      else if is_Timeout e then
        (Inr [], print [Lit ''The API server took too long to respond.'']
                   (print [Lit ''Timeout error occurred: '', Exc e] st))
      else if is_RequestException e then
        (Inr [], print [Lit ''An unexpected request error occurred: '', Exc e] st)
      else if is_KeyError e then
        (let st1 = print [Lit ''Error parsing API response. Missing expected key: '', Exc e] st
         in case data st1 of
              None \<Rightarrow> (Inl UnboundLocalError, st1)
            | Some d \<Rightarrow> (Inr [], print [Lit ''Partial data for debugging: '', Val d] st1))
      else (Inr [], print [Lit ''An unknown error occurred: '', Exc e] st))"

text \<open>
  The state in which the \<^verbatim>\<open>try\<close> is entered: line 27 has printed, nothing has been
  requested and no local of the \<^verbatim>\<open>try\<close> is bound but the empty \<^verbatim>\<open>formatted_results\<close>.
\<close>

definition searching_line :: "string \<Rightarrow> string \<Rightarrow> string \<Rightarrow> fstring" where
  "searching_line keyword jurisdiction session =
     [Lit ''Searching for bills with keyword: '', Lit [CHR 0x27], Str keyword, Lit [CHR 0x27],
      Lit '' in '', Str (upper jurisdiction), Lit '' (Session: '', Str session,
      Lit '') using OpenStates API...'']"

definition entry_state :: "'w \<Rightarrow> string \<Rightarrow> string \<Rightarrow> string \<Rightarrow> 'w st" where
  "entry_state w keyword jurisdiction session =
     print (searching_line keyword jurisdiction session) (init_st w)"

text \<open>
  The function. Its result is \<open>Inr\<close> of the list it returns, or \<open>Inl\<close> of an exception
  that leaves it; the state holds what it printed and the exchanges it made.
\<close>

definition search_bill_openstates ::
  "'w http \<Rightarrow> string \<Rightarrow> 'w \<Rightarrow> string \<Rightarrow> string \<Rightarrow> string \<Rightarrow> int
     \<Rightarrow> (exc + bill_summary list) \<times> 'w st" where
  "search_bill_openstates get api_key w keyword jurisdiction session limit =
     (case try_body get api_key keyword jurisdiction session limit
             (entry_state w keyword jurisdiction session) of
        (Inl e, st) \<Rightarrow> handler e st
      | (Inr rs, st) \<Rightarrow> (Inr rs, st))"

section \<open>Vocabulary of the statements\<close>

text \<open>The value an object holds under a key; \<open>None\<close> when the key is absent.\<close>

definition member_of :: "json \<Rightarrow> string \<Rightarrow> json option" where
  "member_of d key = (case d of JObj kvs \<Rightarrow> map_of kvs key | _ \<Rightarrow> None)"

text \<open>
  The name of an entry of the \<^verbatim>\<open>subjects\<close> list as the specification reads it: the
  str under \<^verbatim>\<open>name\<close>, and the empty name when the entry has no str there.
\<close>

definition entry_name :: "json \<Rightarrow> string" where
  "entry_name s = (case member_of s ''name'' of Some (JStr n) \<Rightarrow> n | _ \<Rightarrow> [])"

text \<open>
  The record a detail exchange yields: none when the transport failed, the status is an
  error status, the body is not JSON or the body cannot be formatted.
\<close>

definition summary_of :: "outcome \<Rightarrow> bill_summary option" where
  "summary_of res =
     (case res of
        Inl f \<Rightarrow> None
      | Inr r \<Rightarrow>
          (case ebind (raise_for_status r) (\<lambda>_. ebind (json_of r) format_detail) of
             Inl e \<Rightarrow> None
           | Inr row \<Rightarrow> Some row))"

text \<open>The detail request for an entry of \<^verbatim>\<open>results\<close>; none when the entry has no \<^verbatim>\<open>id\<close>.\<close>

definition detail_request_of :: "string \<Rightarrow> json \<Rightarrow> request option" where
  "detail_request_of api_key bill =
     (case getitem_str bill ''id'' of Inl e \<Rightarrow> None | Inr bill_id \<Rightarrow> Some (detail_request api_key bill_id))"

section \<open>Example responses and a scripted server\<close>

text \<open>
  A server that answers the requests it receives with a fixed list of outcomes, in order,
  whatever the request; the world is the list of the outcomes still to give.
\<close>

fun replay :: "outcome list http" where
  "replay [] rq = (Inl ConnectionFailed, [])"
| "replay (x # xs) rq = (x, xs)"

definition ok :: "json \<Rightarrow> outcome" where
  "ok d = Inr \<lparr>status_code = 200, body = Some d\<rparr>"

definition status_only :: "int \<Rightarrow> outcome" where
  "status_only c = Inr \<lparr>status_code = c, body = None\<rparr>"

definition two_results :: json where
  "two_results = JObj [(''results'', JArr [JObj [(''id'', JStr ''b1'')], JObj [(''id'', JStr ''b2'')]])]"

definition detail_education :: json where
  "detail_education =
     JObj [(''identifier'', JStr ''HB 123''),
           (''title'', JStr ''Student Loan Reform''),
           (''actions'', JArr [JObj [(''description'', JStr ''Introduced'')],
                               JObj [(''description'', JStr ''Referred to committee'')]]),
           (''subjects'', JArr [JObj [(''name'', JStr ''Education'')],
                                JObj [(''name'', JStr [])],
                                JObj [(''id'', JInt 7)],
                                JObj [(''name'', JStr ''Finance'')]]),
           (''abstract'', JStr ''Reforms student loans. Adds oversight.'')]"

definition summary_education :: bill_summary where
  "summary_education =
     \<lparr>identifier = JStr ''HB 123'', title = JStr ''Student Loan Reform'',
      status = JStr ''Referred to committee'', subjects = ''Education, Finance'',
      abstract = JStr ''Reforms student loans. Adds oversight.'',
      openstates_url = JStr ''No URL available.'', classification = JStr ''N/A''\<rparr>"

definition detail_bare :: json where
  "detail_bare =
     JObj [(''actions'', JArr [JObj [(''date'', JStr ''2025-01-01'')]]),
           (''subjects'', JArr [JObj [(''name'', JStr [])], JObj []])]"

definition summary_bare :: bill_summary where
  "summary_bare =
     \<lparr>identifier = JStr ''N/A'', title = JStr ''N/A'',
      status = JStr ''No description.'', subjects = ''N/A'',
      abstract = JStr ''No abstract available.'',
      openstates_url = JStr ''No URL available.'', classification = JStr ''N/A''\<rparr>"

definition summary_default :: bill_summary where
  "summary_default =
     \<lparr>identifier = JStr ''N/A'', title = JStr ''N/A'',
      status = JStr ''No recent action found.'', subjects = ''N/A'',
      abstract = JStr ''No abstract available.'',
      openstates_url = JStr ''No URL available.'', classification = JStr ''N/A''\<rparr>"

definition one_result :: json where
  "one_result = JObj [(''results'', JArr [JObj [(''id'', JStr ''b1'')]])]"

section \<open>Properties of the static catalogue\<close>

lemma lower_upper_char: "lower_char (upper_char c) = lower_char c"
proof (cases "97 \<le> (of_char c :: nat) \<and> (of_char c :: nat) \<le> 122")
  case True
  then have up: "upper_char c = char_of (of_char c - 32 :: nat)"
    by (simp add: upper_char_def Let_def)
  from True have "(of_char c - 32 :: nat) < 256"
    by arith
  then have a: "of_char (char_of (of_char c - 32 :: nat)) = (of_char c - 32 :: nat)"
    by (simp add: of_char_of)
  from True have rng: "65 \<le> (of_char c - 32 :: nat) \<and> (of_char c - 32 :: nat) \<le> 90"
    by arith
  from True have plus32: "(of_char c - 32 + 32 :: nat) = of_char c"
    by arith
  have "lower_char (upper_char c) = char_of (of_char c - 32 + 32 :: nat)"
    unfolding up lower_char_def Let_def a using rng by simp
  also have "\<dots> = c"
    unfolding plus32 by simp
  also have "c = lower_char c"
    using True by (simp add: lower_char_def Let_def)
  finally show ?thesis .
next
  case False
  then have "upper_char c = c"
    by (auto simp add: upper_char_def Let_def)
  then show ?thesis
    by simp
qed

lemma lower_upper: "lower (upper s) = lower s"
  by (simp add: lower_def upper_def lower_upper_char)

text \<open>
  C8. For every keyword, the static \<^verbatim>\<open>search_bill\<close> matches on the lowercased keyword:
  when it contains \<^verbatim>\<open>climate\<close> the result is exactly the two fixed climate records,
  whether or not it contains \<^verbatim>\<open>education\<close> too; otherwise, when it contains
  \<^verbatim>\<open>education\<close>, the result is exactly the one education record; otherwise it is empty.
  The case of the keyword does not matter. In particular \<^verbatim>\<open>search_bill("climate change")\<close>
  is the two climate records and \<^verbatim>\<open>search_bill("unrelated")\<close> is empty.
\<close>

theorem search_bill_static:
  "snd (search_bill keyword) =
     (if sublist ''climate'' (lower keyword) then
        [[(''title'', ''Clean Air Act Amendment of 2025''),
          (''status'', ''Passed House, Awaiting Senate Vote''),
          (''bill_id'', ''hr3684'')],
         [(''title'', ''Climate Change Mitigation Bill''),
          (''status'', ''Introduced''),
          (''bill_id'', ''s1234'')]]
      else if sublist ''education'' (lower keyword) then
        [[(''title'', ''Student Loan Forgiveness Act''),
          (''status'', ''In Committee''),
          (''bill_id'', ''hr5678'')]]
      else [])
   \<and> snd (search_bill (upper keyword)) = snd (search_bill keyword)
   \<and> snd (search_bill ''climate change'') = climate_bills
   \<and> snd (search_bill ''unrelated'') = []"
proof -
  have general: "snd (search_bill k) =
     (if sublist ''climate'' (lower k) then climate_bills
      else if sublist ''education'' (lower k) then education_bills else [])" for k
    by (simp add: search_bill_def py_in_def)
  have "snd (search_bill (upper keyword)) = snd (search_bill keyword)"
    by (simp only: general lower_upper)
  moreover have "snd (search_bill ''climate change'') = climate_bills"
    by code_simp
  moreover have "snd (search_bill ''unrelated'') = []"
    by code_simp
  ultimately show ?thesis
    by (simp only: general climate_bills_def education_bills_def simp_thms)
qed

theorem search_bill_static_witness:
  "snd (search_bill ''Education and CLIMATE'') = climate_bills
   \<and> snd (search_bill ''Higher EDUCATION'') = education_bills"
proof -
  have a: "sublist ''climate'' (lower ''Education and CLIMATE'')" by code_simp
  have b: "\<not> sublist ''climate'' (lower ''Higher EDUCATION'')" by code_simp
  have c: "sublist ''education'' (lower ''Higher EDUCATION'')" by code_simp
  show ?thesis
    using search_bill_static [of "''Education and CLIMATE''"]
      search_bill_static [of "''Higher EDUCATION''"] a b c
    by (simp only: climate_bills_def education_bills_def if_True if_False simp_thms)
qed

section \<open>Properties of the formatting of a detail response\<close>

lemma ebind_simps [simp]: "ebind (Inl e) f = Inl e" "ebind (Inr x) f = f x"
  by (simp_all add: ebind_def)

lemma ebind_eq_Inr: "ebind m f = Inr y \<longleftrightarrow> (\<exists>x. m = Inr x \<and> f x = Inr y)"
  by (cases m) simp_all

lemma py_get_eq_Inr:
  "py_get d key dflt = Inr v \<longleftrightarrow>
     (\<exists>kvs. d = JObj kvs \<and> v = (case map_of kvs key of None \<Rightarrow> dflt | Some x \<Rightarrow> x))"
  by (cases d) auto

lemma py_get_member_of:
  "py_get d key dflt = Inr v \<Longrightarrow> v = (case member_of d key of None \<Rightarrow> dflt | Some x \<Rightarrow> x)"
  by (cases d) (auto simp: member_of_def)

lemma format_detail_fields:
  assumes "format_detail d = Inr r"
  shows "\<exists>ns. latest_action (case member_of d ''actions'' of None \<Rightarrow> JArr [] | Some x \<Rightarrow> x) = Inr (status r)
    \<and> ebind (py_iter (case member_of d ''subjects'' of None \<Rightarrow> JArr [] | Some x \<Rightarrow> x)) subject_names = Inr ns
    \<and> (if ns \<noteq> [] then py_join '', '' ns else Inr ''N/A'') = Inr (subjects r)"
proof -
  from assms obtain kvs where d: "d = JObj kvs"
    by (cases d) (simp_all add: format_detail_def)
  show ?thesis
    using assms unfolding d format_detail_def
    by (auto simp: ebind_eq_Inr member_of_def)
qed

lemma format_detail_education: "format_detail detail_education = Inr summary_education"
  by code_simp

lemma format_detail_bare: "format_detail detail_bare = Inr summary_bare"
  by code_simp

lemma format_detail_default: "format_detail (JObj []) = Inr summary_default"
  by code_simp

text \<open>
  C4. For every detail response from which a record is produced, the status of the record
  is \<^verbatim>\<open>No recent action found.\<close> when the \<^verbatim>\<open>actions\<close> list is absent or empty, and
  is the description of the last element of the list when the list is not empty and
  that element has a description.
\<close>

theorem status_of_actions:
  assumes "format_detail d = Inr r"
  shows "(member_of d ''actions'' = None \<or> member_of d ''actions'' = Some (JArr [])
            \<longrightarrow> status r = JStr ''No recent action found.'')
       \<and> (\<forall>acts v. member_of d ''actions'' = Some (JArr acts) \<and> acts \<noteq> []
              \<and> member_of (last acts) ''description'' = Some v \<longrightarrow> status r = v)"
proof -
  from format_detail_fields [OF assms]
  have la: "latest_action (case member_of d ''actions'' of None \<Rightarrow> JArr [] | Some x \<Rightarrow> x) = Inr (status r)"
    by blast
  show ?thesis
  proof (intro conjI impI allI)
    assume "member_of d ''actions'' = None \<or> member_of d ''actions'' = Some (JArr [])"
    with la show "status r = JStr ''No recent action found.''"
      by (auto simp: latest_action_def)
  next
    fix acts v
    assume h: "member_of d ''actions'' = Some (JArr acts) \<and> acts \<noteq> []
              \<and> member_of (last acts) ''description'' = Some v"
    with la have "py_get (last acts) ''description'' (JStr ''No description.'') = Inr (status r)"
      by (simp add: latest_action_def)
    from py_get_member_of [OF this] h show "status r = v"
      by simp
  qed
qed

theorem status_of_actions_witness:
  "format_detail detail_education = Inr summary_education
   \<and> status summary_education = JStr ''Referred to committee''
   \<and> format_detail (JObj []) = Inr summary_default
   \<and> status summary_default = JStr ''No recent action found.''"
proof -
  have a: "member_of detail_education ''actions'' =
      Some (JArr [JObj [(''description'', JStr ''Introduced'')],
                  JObj [(''description'', JStr ''Referred to committee'')]])"
    by (simp add: member_of_def detail_education_def)
  have b: "member_of (JObj []) ''actions'' = None"
    by (simp add: member_of_def)
  from status_of_actions [OF format_detail_education] a
  have "status summary_education = JStr ''Referred to committee''"
    by (simp add: member_of_def)
  moreover from status_of_actions [OF format_detail_default] b
  have "status summary_default = JStr ''No recent action found.''"
    by simp
  ultimately show ?thesis
    using format_detail_education format_detail_default by simp
qed

text \<open>
  C9. For every detail response from which a record is produced and whose \<^verbatim>\<open>actions\<close>
  list is not empty while its last element has no \<^verbatim>\<open>description\<close> key, the status of
  the record is \<^verbatim>\<open>No description.\<close>, not \<^verbatim>\<open>No recent action found.\<close>
\<close>

theorem status_without_description:
  assumes "format_detail d = Inr r"
    and "member_of d ''actions'' = Some (JArr acts)" and "acts \<noteq> []"
    and "member_of (last acts) ''description'' = None"
  shows "status r = JStr ''No description.'' \<and> status r \<noteq> JStr ''No recent action found.''"
proof -
  from format_detail_fields [OF assms(1)] assms(2,3)
  have "py_get (last acts) ''description'' (JStr ''No description.'') = Inr (status r)"
    by (auto simp add: latest_action_def)
  from py_get_member_of [OF this] assms(4) show ?thesis
    by simp
qed

theorem status_without_description_witness:
  "format_detail detail_bare = Inr summary_bare \<and> status summary_bare = JStr ''No description.''"
proof -
  have a: "member_of detail_bare ''actions'' = Some (JArr [JObj [(''date'', JStr ''2025-01-01'')]])"
    by (simp add: member_of_def detail_bare_def)
  have b: "member_of (last [JObj [(''date'', JStr ''2025-01-01'')]]) ''description'' = None"
    by (simp add: member_of_def)
  from status_without_description [OF format_detail_bare a _ b]
  show ?thesis
    using format_detail_bare by simp
qed

lemma subject_names_strs:
  "subject_names ss = Inr ns \<Longrightarrow> str_items ns = Inr strs
     \<Longrightarrow> strs = filter (\<lambda>n. n \<noteq> []) (map entry_name ss)"
proof (induction ss arbitrary: ns strs)
  case Nil
  then show ?case by simp
next
  case (Cons s ss)
  from Cons.prems(1) obtain kvs where s: "s = JObj kvs"
    by (cases s) simp_all
  show ?case
  proof (cases "truthy (case map_of kvs ''name'' of None \<Rightarrow> JNull | Some v \<Rightarrow> v)")
    case False
    then have "entry_name s = []"
      by (auto simp: entry_name_def member_of_def s split: option.splits json.splits)
    moreover from False Cons.prems(1) have "subject_names ss = Inr ns"
      by (simp add: s)
    ultimately show ?thesis
      using Cons.IH [OF _ Cons.prems(2)] by simp
  next
    case True
    then obtain n where n: "map_of kvs ''name'' = Some n" "truthy n"
      by (auto split: option.splits)
    with Cons.prems(1) obtain ns' where ns': "subject_names ss = Inr ns'" "ns = n # ns'"
      by (auto simp: s ebind_eq_Inr)
    from Cons.prems(2) ns'(2) obtain x strs' where
      x: "n = JStr x" "str_items ns' = Inr strs'" "strs = x # strs'"
      by (cases n) (auto simp: ebind_eq_Inr)
    from n x(1) have "entry_name s = x" "x \<noteq> []"
      by (simp_all add: entry_name_def member_of_def s)
    with Cons.IH [OF ns'(1) x(2)] x(3) show ?thesis
      by simp
  qed
qed

lemma str_items_Nil: "str_items ns = Inr strs \<Longrightarrow> (strs = []) = (ns = [])"
  by (cases ns rule: str_items.cases) (auto simp: ebind_eq_Inr)

text \<open>
  C5. For every detail response from which a record is produced, the subjects of the
  record are \<^verbatim>\<open>N/A\<close> when the \<^verbatim>\<open>subjects\<close> list is absent, and when it is empty or
  all its entries have an empty or missing name; otherwise they are the non-empty names
  of the list, in their order, joined by a comma and a space.
\<close>

theorem subjects_of_detail:
  assumes "format_detail d = Inr r"
  shows "(member_of d ''subjects'' = None \<longrightarrow> subjects r = ''N/A'')
       \<and> (\<forall>ss. member_of d ''subjects'' = Some (JArr ss) \<longrightarrow>
             subjects r =
               (if filter (\<lambda>n. n \<noteq> []) (map entry_name ss) = [] then ''N/A''
                else join '', '' (filter (\<lambda>n. n \<noteq> []) (map entry_name ss))))"
proof -
  from format_detail_fields [OF assms] obtain ns where
    ns: "ebind (py_iter (case member_of d ''subjects'' of None \<Rightarrow> JArr [] | Some x \<Rightarrow> x)) subject_names = Inr ns"
    and j: "(if ns \<noteq> [] then py_join '', '' ns else Inr ''N/A'') = Inr (subjects r)"
    by blast
  have key: "subjects r =
      (if filter (\<lambda>n. n \<noteq> []) (map entry_name ss) = [] then ''N/A''
       else join '', '' (filter (\<lambda>n. n \<noteq> []) (map entry_name ss)))"
    if sn: "subject_names ss = Inr ns" for ss
  proof (cases "ns = []")
    case True
    with sn have "filter (\<lambda>n. n \<noteq> []) (map entry_name ss) = []"
      using subject_names_strs [of ss "[]" "[]"] by simp
    with True j show ?thesis by simp
  next
    case False
    with j obtain strs where strs: "str_items ns = Inr strs" "subjects r = join '', '' strs"
      by (auto simp: py_join_def ebind_eq_Inr)
    from subject_names_strs [OF sn strs(1)] str_items_Nil [OF strs(1)] False strs(2)
    show ?thesis by simp
  qed
  show ?thesis
  proof (intro conjI impI allI)
    assume "member_of d ''subjects'' = None"
    with ns have "subject_names [] = Inr ns" by simp
    from key [OF this] show "subjects r = ''N/A''" by simp
  next
    fix ss assume "member_of d ''subjects'' = Some (JArr ss)"
    with ns have "subject_names ss = Inr ns" by simp
    from key [OF this] show "subjects r =
               (if filter (\<lambda>n. n \<noteq> []) (map entry_name ss) = [] then ''N/A''
                else join '', '' (filter (\<lambda>n. n \<noteq> []) (map entry_name ss)))" .
  qed
qed


theorem subjects_of_detail_witness:
  "format_detail detail_education = Inr summary_education
   \<and> subjects summary_education = ''Education, Finance''
   \<and> format_detail detail_bare = Inr summary_bare
   \<and> subjects summary_bare = ''N/A''
   \<and> format_detail (JObj []) = Inr summary_default
   \<and> subjects summary_default = ''N/A''"
proof -
  have a: "member_of detail_education ''subjects'' =
      Some (JArr [JObj [(''name'', JStr ''Education'')], JObj [(''name'', JStr [])],
                  JObj [(''id'', JInt 7)], JObj [(''name'', JStr ''Finance'')]])"
    by (simp add: member_of_def detail_education_def)
  have b: "member_of detail_bare ''subjects'' = Some (JArr [JObj [(''name'', JStr [])], JObj []])"
    by (simp add: member_of_def detail_bare_def)
  have c: "member_of (JObj []) ''subjects'' = None"
    by (simp add: member_of_def)
  from subjects_of_detail [OF format_detail_education] a
  have "subjects summary_education = ''Education, Finance''"
    by (simp add: entry_name_def member_of_def)
  moreover from subjects_of_detail [OF format_detail_bare] b
  have "subjects summary_bare = ''N/A''"
    by (simp add: entry_name_def member_of_def)
  moreover from subjects_of_detail [OF format_detail_default] c
  have "subjects summary_default = ''N/A''"
    by simp
  ultimately show ?thesis
    using format_detail_education format_detail_bare format_detail_default by simp
qed

section \<open>The loop and the body of the \<^verbatim>\<open>try\<close>\<close>

lemma sbind_lift [simp]:
  "sbind (lift (Inl e)) f st = (Inl e, st)"
  "sbind (lift (Inr x)) f st = f x st"
  by (simp_all add: sbind_def lift_def)

lemma sbind_exec [simp]: "sbind (exec g) f st = f () (g st)"
  by (simp add: sbind_def exec_def)

lemma sbind_requests_get:
  "sbind (requests_get get rq) f st =
     (case get (world st) rq of
        (Inl fl, w') \<Rightarrow> (Inl (raised fl), st\<lparr>world := w', trace := trace st @ [(rq, Inl fl)]\<rparr>)
      | (Inr r, w') \<Rightarrow> f r (st\<lparr>world := w', trace := trace st @ [(rq, Inr r)]\<rparr>))"
  by (simp add: sbind_def requests_get_def split: prod.splits sum.splits)

text \<open>One pass of the loop body on an element that is within the limit.\<close>

lemma loop_Cons:
  "loop get api_key limit i (bill # rest) st =
     (if limit \<le> int i then (Inr (), st)
      else case getitem_str bill ''id'' of
        Inl e \<Rightarrow> (Inl e, st)
      | Inr bill_id \<Rightarrow>
         (case get (world st) (detail_request api_key bill_id) of
            (res, w') \<Rightarrow>
              (let st1 = st\<lparr>world := w', trace := trace st @ [(detail_request api_key bill_id, res)]\<rparr>
               in case res of
                    Inl fl \<Rightarrow> (Inl (raised fl), st1)
                  | Inr r \<Rightarrow>
                      (case ebind (raise_for_status r) (\<lambda>_. ebind (json_of r) format_detail) of
                         Inl e \<Rightarrow> (Inl e, st1)
                       | Inr row \<Rightarrow>
                           loop get api_key limit (Suc i) rest
                             (st1\<lparr>formatted_results := formatted_results st1 @ [row]\<rparr>)))))"
  by (simp add: sbind_requests_get ebind_def Let_def split: sum.splits prod.splits)

lemma loop_frame:
  "loop get api_key limit i items st = (res, st') \<Longrightarrow>
     out st' = out st \<and> response st' = response st \<and> data st' = data st"
proof (induction items arbitrary: i st)
  case Nil
  then show ?case by auto
next
  case (Cons bill rest)
  from Cons.prems show ?case
    unfolding loop_Cons
    by (auto simp: Let_def split: if_splits sum.splits prod.splits dest!: Cons.IH)
qed

lemma summary_of_Inr: "summary_of (Inr r) = Some row \<longleftrightarrow> ebind (raise_for_status r) (\<lambda>_. ebind (json_of r) format_detail) = Inr row"
  by (simp add: summary_of_def split: sum.splits)

lemma detail_request_of_Inr: "getitem_str bill ''id'' = Inr bill_id \<Longrightarrow> detail_request_of api_key bill = Some (detail_request api_key bill_id)"
  by (simp add: detail_request_of_def)

lemma loop_Inr:
  "loop get api_key limit i items st = (Inr u, st') \<Longrightarrow>
     \<exists>details rows.
        trace st' = trace st @ details
      \<and> formatted_results st' = formatted_results st @ rows
      \<and> map (\<lambda>x. Some (fst x)) details
          = map (detail_request_of api_key) (take (nat (limit - int i)) items)
      \<and> map (\<lambda>x. summary_of (snd x)) details = map Some rows"
proof (induction items arbitrary: i st)
  case Nil
  then show ?case by simp
next
  case (Cons bill rest)
  show ?case
  proof (cases "limit \<le> int i")
    case True
    with Cons.prems have "st' = st" by simp
    with True show ?thesis by simp
  next
    case False
    with Cons.prems obtain bill_id r w' row where
      id: "getitem_str bill ''id'' = Inr bill_id"
      and g: "get (world st) (detail_request api_key bill_id) = (Inr r, w')"
      and row: "ebind (raise_for_status r) (\<lambda>_. ebind (json_of r) format_detail) = Inr row"
      and rec: "loop get api_key limit (Suc i) rest
                  (st\<lparr>world := w', trace := trace st @ [(detail_request api_key bill_id, Inr r)],
                      formatted_results := formatted_results st @ [row]\<rparr>) = (Inr u, st')"
      unfolding loop_Cons
      by (auto simp: Let_def split: sum.splits prod.splits)
    from Cons.IH [OF rec] obtain details rows where
      t: "trace st' = (trace st @ [(detail_request api_key bill_id, Inr r)]) @ details"
      and f: "formatted_results st' = (formatted_results st @ [row]) @ rows"
      and rq: "map (\<lambda>x. Some (fst x)) details
          = map (detail_request_of api_key) (take (nat (limit - int (Suc i))) rest)"
      and sm: "map (\<lambda>x. summary_of (snd x)) details = map Some rows"
      by auto
    from False have n: "nat (limit - int i) = Suc (nat (limit - int (Suc i)))"
      by simp
    let ?details = "(detail_request api_key bill_id, Inr r) # details"
    have "trace st' = trace st @ ?details" using t by simp
    moreover have "formatted_results st' = formatted_results st @ (row # rows)" using f by simp
    moreover have "map (\<lambda>x. Some (fst x)) ?details
          = map (detail_request_of api_key) (take (nat (limit - int i)) (bill # rest))"
      using rq detail_request_of_Inr [OF id] unfolding n by simp
    moreover have "map (\<lambda>x. summary_of (snd x)) ?details = map Some (row # rows)"
      using sm row by (simp add: summary_of_Inr)
    ultimately show ?thesis by blast
  qed
qed

lemma loop_nonpositive: "limit \<le> 0 \<Longrightarrow> loop get api_key limit 0 items st = (Inr (), st)"
  by (cases items) simp_all

lemma try_body_unfold:
  "try_body get api_key keyword jurisdiction session limit st =
     (case get (world st) (search_request api_key keyword jurisdiction session limit) of
        (res, w1) \<Rightarrow>
          (let st1 = st\<lparr>world := w1,
                         trace := trace st @ [(search_request api_key keyword jurisdiction session limit, res)]\<rparr>
           in case res of
                Inl fl \<Rightarrow> (Inl (raised fl), st1)
              | Inr resp \<Rightarrow>
                  (let st2 = st1\<lparr>response := Some resp\<rparr>
                   in case ebind (raise_for_status resp) (\<lambda>_. json_of resp) of
                        Inl e \<Rightarrow> (Inl e, st2)
                      | Inr d \<Rightarrow>
                          (let st3 = st2\<lparr>data := Some d\<rparr>
                           in case py_get d ''results'' (JArr []) of
                                Inl e \<Rightarrow> (Inl e, st3)
                              | Inr bills_found \<Rightarrow>
                                  if \<not> truthy bills_found
                                  then (Inr [], print (no_bills_line keyword jurisdiction) st3)
                                  else (case py_iter bills_found of
                                          Inl e \<Rightarrow> (Inl e, st3)
                                        | Inr items \<Rightarrow>
                                            (case loop get api_key limit 0 items st3 of
                                               (Inl e, st4) \<Rightarrow> (Inl e, st4)
                                             | (Inr u, st4) \<Rightarrow> (Inr (formatted_results st4), st4)))))))"
  by (simp add: try_body_def sbind_requests_get ebind_def Let_def lift_def
        sbind_def [of "loop get api_key limit 0 _"]
      split: sum.splits prod.splits)

lemma raised_class [simp]: "\<not> is_HTTPError (raised fl)" "\<not> is_KeyError (raised fl)"
  by (cases fl; simp)+

lemma py_get_Inl: "py_get d key dflt = Inl e \<Longrightarrow> e = AttributeError"
  by (cases d) auto

lemma py_iter_Inl: "py_iter v = Inl e \<Longrightarrow> e = TypeError"
  by (cases v) auto

lemma try_body_Inl:
  assumes "try_body get api_key keyword jurisdiction session limit st = (Inl e, st')"
  shows "(is_HTTPError e \<longrightarrow> response st' \<noteq> None) \<and> (is_KeyError e \<longrightarrow> data st' \<noteq> None)"
  using assms unfolding try_body_unfold
  by (auto simp: Let_def ebind_def raise_for_status_def json_of_def
      split: prod.splits sum.splits if_splits option.splits
      dest!: loop_frame py_get_Inl py_iter_Inl)

lemma try_body_Inr:
  assumes "try_body get api_key keyword jurisdiction session limit st = (Inr rs, st')"
    and "trace st = []" and "formatted_results st = []"
  shows "\<exists>resp w1 d bills_found.
      get (world st) (search_request api_key keyword jurisdiction session limit) = (Inr resp, w1)
    \<and> ebind (raise_for_status resp) (\<lambda>_. json_of resp) = Inr d
    \<and> py_get d ''results'' (JArr []) = Inr bills_found
    \<and> data st' = Some d
    \<and> (if \<not> truthy bills_found
        then rs = [] \<and> st' = print (no_bills_line keyword jurisdiction)
               (st\<lparr>world := w1,
                   trace := [(search_request api_key keyword jurisdiction session limit, Inr resp)],
                   response := Some resp, data := Some d\<rparr>)
        else \<exists>items details.
               py_iter bills_found = Inr items
             \<and> trace st' = (search_request api_key keyword jurisdiction session limit, Inr resp) # details
             \<and> map (\<lambda>x. Some (fst x)) details
                 = map (detail_request_of api_key) (take (nat limit) items)
             \<and> map (\<lambda>x. summary_of (snd x)) details = map Some rs)"
proof -
  let ?rq = "search_request api_key keyword jurisdiction session limit"
  from assms(1) obtain resp w1 d bills_found where
    g: "get (world st) ?rq = (Inr resp, w1)"
    and d: "ebind (raise_for_status resp) (\<lambda>_. json_of resp) = Inr d"
    and bf: "py_get d ''results'' (JArr []) = Inr bills_found"
    unfolding try_body_unfold
    by (auto simp: Let_def split: prod.splits sum.splits)
  let ?st3 = "st\<lparr>world := w1, trace := trace st @ [(?rq, Inr resp)],
                 response := Some resp, data := Some d\<rparr>"
  show ?thesis
  proof (cases "truthy bills_found")
    case False
    with assms g d bf have "rs = [] \<and> st' = print (no_bills_line keyword jurisdiction)
               (st\<lparr>world := w1, trace := [(?rq, Inr resp)], response := Some resp, data := Some d\<rparr>)"
      unfolding try_body_unfold by (auto simp: Let_def)
    moreover from this have "data st' = Some d" by (simp add: print_def)
    ultimately show ?thesis using g d bf False by auto
  next
    case True
    with assms(1) g d bf obtain items u where
      it: "py_iter bills_found = Inr items"
      and lp: "loop get api_key limit 0 items ?st3 = (Inr u, st')"
      and rs: "rs = formatted_results st'"
      unfolding try_body_unfold
      by (auto simp: Let_def split: prod.splits sum.splits)
    from loop_Inr [OF lp] obtain details rows where
      t: "trace st' = trace ?st3 @ details"
      and f: "formatted_results st' = formatted_results ?st3 @ rows"
      and rq: "map (\<lambda>x. Some (fst x)) details
          = map (detail_request_of api_key) (take (nat (limit - int 0)) items)"
      and sm: "map (\<lambda>x. summary_of (snd x)) details = map Some rows"
      by blast
    from loop_frame [OF lp] have dt: "data st' = Some d" by simp
    from f rs assms(3) have "rows = rs" by simp
    with t rq sm assms(2) it True g d bf dt show ?thesis
      by auto
  qed
qed

lemma entry_state_simps [simp]:
  "world (entry_state w keyword jurisdiction session) = w"
  "trace (entry_state w keyword jurisdiction session) = []"
  "formatted_results (entry_state w keyword jurisdiction session) = []"
  "response (entry_state w keyword jurisdiction session) = None"
  "data (entry_state w keyword jurisdiction session) = None"
  by (simp_all add: entry_state_def init_st_def print_def)

lemma py_get_member:
  "py_get d key dflt = Inr v \<Longrightarrow> member_of d key = Some x \<Longrightarrow> v = x"
  by (cases d) (auto simp: member_of_def)

lemma try_body_Inr_details:
  assumes ok: "try_body get api_key keyword jurisdiction session limit st = (Inr rs, st')"
    and "trace st = []" and "formatted_results st = []"
  shows "\<exists>resp w1 d details.
      get (world st) (search_request api_key keyword jurisdiction session limit) = (Inr resp, w1)
    \<and> ebind (raise_for_status resp) (\<lambda>_. json_of resp) = Inr d
    \<and> data st' = Some d
    \<and> trace st' = (search_request api_key keyword jurisdiction session limit, Inr resp) # details
    \<and> map (\<lambda>x. summary_of (snd x)) details = map Some rs
    \<and> (\<forall>bills. member_of d ''results'' = Some (JArr bills) \<longrightarrow>
          map (\<lambda>x. Some (fst x)) details
            = map (detail_request_of api_key) (take (nat limit) bills))"
proof -
  let ?rq = "search_request api_key keyword jurisdiction session limit"
  from try_body_Inr [OF assms] obtain resp w1 d bills_found where
    g: "get (world st) ?rq = (Inr resp, w1)"
    and d: "ebind (raise_for_status resp) (\<lambda>_. json_of resp) = Inr d"
    and bf: "py_get d ''results'' (JArr []) = Inr bills_found"
    and dt: "data st' = Some d"
    and rest: "if \<not> truthy bills_found
        then rs = [] \<and> st' = print (no_bills_line keyword jurisdiction)
               (st\<lparr>world := w1, trace := [(?rq, Inr resp)], response := Some resp, data := Some d\<rparr>)
        else \<exists>items details.
               py_iter bills_found = Inr items
             \<and> trace st' = (?rq, Inr resp) # details
             \<and> map (\<lambda>x. Some (fst x)) details
                 = map (detail_request_of api_key) (take (nat limit) items)
             \<and> map (\<lambda>x. summary_of (snd x)) details = map Some rs"
    by blast
  have "\<exists>details. trace st' = (?rq, Inr resp) # details
    \<and> map (\<lambda>x. summary_of (snd x)) details = map Some rs
    \<and> (\<forall>bills. member_of d ''results'' = Some (JArr bills) \<longrightarrow>
          map (\<lambda>x. Some (fst x)) details
            = map (detail_request_of api_key) (take (nat limit) bills))"
  proof (cases "truthy bills_found")
    case False
    with rest have rs: "rs = []" and t: "trace st' = [(?rq, Inr resp)]"
      by (simp_all add: print_def)
    have "bills = []" if "member_of d ''results'' = Some (JArr bills)" for bills
      using py_get_member [OF bf that] False by simp
    with rs t show ?thesis by simp
  next
    case True
    with rest obtain items details where
      it: "py_iter bills_found = Inr items"
      and t: "trace st' = (?rq, Inr resp) # details"
      and q: "map (\<lambda>x. Some (fst x)) details
                 = map (detail_request_of api_key) (take (nat limit) items)"
      and sm: "map (\<lambda>x. summary_of (snd x)) details = map Some rs"
      by auto
    have "items = bills" if "member_of d ''results'' = Some (JArr bills)" for bills
      using py_get_member [OF bf that] it by simp
    with t q sm show ?thesis by auto
  qed
  with g d dt show ?thesis by blast
qed

lemma try_body_nonpositive:
  assumes "limit \<le> 0"
    and "try_body get api_key keyword jurisdiction session limit st = (r, st')"
  shows "trace st' = trace st @ [(search_request api_key keyword jurisdiction session limit,
                                  fst (get (world st) (search_request api_key keyword jurisdiction session limit)))]
       \<and> (\<forall>rs. r = Inr rs \<longrightarrow> rs = [] \<or> rs = formatted_results st)"
  using assms(2) unfolding try_body_unfold
  by (auto simp: Let_def loop_nonpositive [OF assms(1)] print_def
      split: prod.splits sum.splits if_splits)

section \<open>The \<^verbatim>\<open>except\<close> clauses\<close>

lemma ex_lines:
  "ls \<noteq> [] \<Longrightarrow> \<exists>lines. lines \<noteq> [] \<and> st\<lparr>out := out st @ ls\<rparr> = st\<lparr>out := out st @ lines\<rparr>"
  by blast

lemma handler_returns:
  assumes "is_HTTPError e \<longrightarrow> response st \<noteq> None" and "is_KeyError e \<longrightarrow> data st \<noteq> None"
  shows "\<exists>lines. lines \<noteq> [] \<and> handler e st = (Inr [], st\<lparr>out := out st @ lines\<rparr>)"
proof (cases "is_HTTPError e")
  case True
  with assms obtain r where "response st = Some r" by auto
  with True show ?thesis
    unfolding handler_def Let_def by (auto simp: print_def intro!: ex_lines)
next
  case False
  note nh = this
  show ?thesis
  proof (cases "is_KeyError e")
    case True
    then obtain k where k: "e = KeyError k" by (cases e) auto
    from True assms obtain d where "data st = Some d" by auto
    then show ?thesis
      unfolding handler_def Let_def k by (auto simp: print_def intro!: ex_lines)
  next
    case False
    with nh show ?thesis
      unfolding handler_def Let_def by (auto simp: print_def intro!: ex_lines)
  qed
qed

lemma search_caught:
  assumes "try_body get api_key keyword jurisdiction session limit
             (entry_state w keyword jurisdiction session) = (Inl e, st)"
  shows "\<exists>lines. lines \<noteq> [] \<and>
      search_bill_openstates get api_key w keyword jurisdiction session limit
        = (Inr [], st\<lparr>out := out st @ lines\<rparr>)"
proof -
  from try_body_Inl [OF assms] handler_returns [of e st]
  obtain lines where "lines \<noteq> []" "handler e st = (Inr [], st\<lparr>out := out st @ lines\<rparr>)"
    by blast
  with assms show ?thesis
    by (auto simp: search_bill_openstates_def)
qed

section \<open>Properties of \<^verbatim>\<open>search_bill_openstates\<close>\<close>

text \<open>
  C2. For every successful search (the body of the \<^verbatim>\<open>try\<close> returns) whose list response
  holds the results array \<open>bills\<close> and whose limit is \<open>limit\<close>, a limit that is not
  negative: after the list request the function makes exactly \<open>min (length bills) limit\<close>
  further requests; they are the detail requests for the first entries of \<open>bills\<close>, in
  the order of \<open>bills\<close>; and the list returned is, record by record and in the same
  order, what those exchanges yield.
\<close>

theorem detail_fetches_in_order:
  assumes ok: "try_body get api_key keyword jurisdiction session limit
                 (entry_state w keyword jurisdiction session) = (Inr rs, st')"
    and g: "get w (search_request api_key keyword jurisdiction session limit) = (Inr resp, w1)"
    and b: "body resp = Some d"
    and r: "member_of d ''results'' = Some (JArr bills)"
    and l: "0 \<le> limit"
  shows "search_bill_openstates get api_key w keyword jurisdiction session limit = (Inr rs, st')
    \<and> (\<exists>details.
          trace st' = (search_request api_key keyword jurisdiction session limit, Inr resp) # details
        \<and> int (length details) = min (int (length bills)) limit
        \<and> map (\<lambda>x. Some (fst x)) details = map (detail_request_of api_key) (take (nat limit) bills)
        \<and> map (\<lambda>x. summary_of (snd x)) details = map Some rs)"
proof -
  let ?rq = "search_request api_key keyword jurisdiction session limit"
  from try_body_Inr_details [OF ok] g obtain d' details where
    d': "ebind (raise_for_status resp) (\<lambda>_. json_of resp) = Inr d'"
    and t: "trace st' = (?rq, Inr resp) # details"
    and sm: "map (\<lambda>x. summary_of (snd x)) details = map Some rs"
    and q': "\<forall>bills. member_of d' ''results'' = Some (JArr bills) \<longrightarrow>
          map (\<lambda>x. Some (fst x)) details
            = map (detail_request_of api_key) (take (nat limit) bills)"
    by auto
  from d' b have "d' = d"
    by (auto simp: ebind_def json_of_def split: sum.splits)
  with q' r have q: "map (\<lambda>x. Some (fst x)) details
            = map (detail_request_of api_key) (take (nat limit) bills)"
    by simp
  then have "length details = length (take (nat limit) bills)"
    by (metis length_map)
  with l have "int (length details) = min (int (length bills)) limit"
    by simp
  with t q sm ok show ?thesis
    by (simp add: search_bill_openstates_def)
qed

theorem detail_fetches_in_order_witness:
  "fst (search_bill_openstates replay ''k'' [ok two_results, ok detail_education, ok detail_bare]
          ''education'' ''ga'' ''current'' 1) = Inr [summary_education]
   \<and> length (tl (trace (snd (search_bill_openstates replay ''k''
          [ok two_results, ok detail_education, ok detail_bare]
          ''education'' ''ga'' ''current'' 1)))) = 1"
proof -
  let ?w = "[ok two_results, ok detail_education, ok detail_bare]"
  let ?t = "try_body replay ''k'' ''education'' ''ga'' ''current'' 1
              (entry_state ?w ''education'' ''ga'' ''current'')"
  have "fst ?t = Inr [summary_education]"
    by code_simp
  then obtain st' where ok: "?t = (Inr [summary_education], st')"
    by (cases ?t) auto
  have g: "replay ?w (search_request ''k'' ''education'' ''ga'' ''current'' 1)
             = (Inr \<lparr>status_code = 200, body = Some two_results\<rparr>, [ok detail_education, ok detail_bare])"
    by (simp add: ok_def)
  have b: "body \<lparr>status_code = 200, body = Some two_results\<rparr> = Some two_results"
    by simp
  have r: "member_of two_results ''results''
             = Some (JArr [JObj [(''id'', JStr ''b1'')], JObj [(''id'', JStr ''b2'')]])"
    by (simp add: member_of_def two_results_def)
  from detail_fetches_in_order [OF ok g b r]
  show ?thesis
    by auto
qed

text \<open>
  C3. For every search in which a detail exchange fails (the transport fails, the status
  is an error status, the body is not JSON or cannot be formatted), or in which an entry
  of the results within the limit has no \<^verbatim>\<open>id\<close>, the function returns the empty list,
  whatever the exchanges before the failure yielded.
\<close>

theorem failed_detail_fetch_gives_empty:
  assumes run: "search_bill_openstates get api_key w keyword jurisdiction session limit = (res, st')"
    and fail: "(\<exists>x \<in> set (tl (trace st')). summary_of (snd x) = None)
             \<or> (\<exists>d bills. data st' = Some d \<and> member_of d ''results'' = Some (JArr bills)
                  \<and> (\<exists>b \<in> set (take (nat limit) bills). detail_request_of api_key b = None))"
  shows "res = Inr []"
proof (cases "try_body get api_key keyword jurisdiction session limit
                (entry_state w keyword jurisdiction session)")
  case (Pair r st)
  show ?thesis
  proof (cases r)
    case (Inl e)
    with Pair search_caught [of get api_key keyword jurisdiction session limit w e st] run
    show ?thesis by auto
  next
    case (Inr rs)
    with Pair run have st: "st' = st" and res: "res = Inr rs"
      by (simp_all add: search_bill_openstates_def)
    from Pair Inr st have ok: "try_body get api_key keyword jurisdiction session limit
                (entry_state w keyword jurisdiction session) = (Inr rs, st')"
      by simp
    from try_body_Inr_details [OF ok] obtain first d details where
      dt: "data st' = Some d"
      and t: "trace st' = first # details"
      and sm: "map (\<lambda>x. summary_of (snd x)) details = map Some rs"
      and q: "\<forall>bills. member_of d ''results'' = Some (JArr bills) \<longrightarrow>
          map (\<lambda>x. Some (fst x)) details
            = map (detail_request_of api_key) (take (nat limit) bills)"
      by auto
    have all_some: "summary_of (snd x) \<noteq> None" if "x \<in> set details" for x
    proof -
      from that have "summary_of (snd x) \<in> set (map (\<lambda>x. summary_of (snd x)) details)"
        by (auto intro: rev_image_eqI)
      then show ?thesis unfolding sm by auto
    qed
    have all_ids: "detail_request_of api_key b \<noteq> None"
      if "member_of d ''results'' = Some (JArr bills)" "b \<in> set (take (nat limit) bills)" for bills b
    proof -
      from that(2) have "detail_request_of api_key b
           \<in> set (map (detail_request_of api_key) (take (nat limit) bills))"
        by (auto intro: rev_image_eqI)
      with q that(1) have "detail_request_of api_key b \<in> set (map (\<lambda>x. Some (fst x)) details)"
        by simp
      then show ?thesis by auto
    qed
    from fail show ?thesis
    proof
      assume "\<exists>x \<in> set (tl (trace st')). summary_of (snd x) = None"
      with t obtain x where "x \<in> set details" "summary_of (snd x) = None"
        by auto
      with all_some show ?thesis by blast
    next
      assume "\<exists>d bills. data st' = Some d \<and> member_of d ''results'' = Some (JArr bills)
                  \<and> (\<exists>b \<in> set (take (nat limit) bills). detail_request_of api_key b = None)"
      with dt obtain bills b where "member_of d ''results'' = Some (JArr bills)"
        "b \<in> set (take (nat limit) bills)" "detail_request_of api_key b = None"
        by auto
      with all_ids show ?thesis by blast
    qed
  qed
qed

theorem failed_detail_fetch_gives_empty_witness:
  "fst (search_bill_openstates replay ''k'' [ok two_results, ok detail_education, status_only 500]
          ''education'' ''ga'' ''current'' 20) = Inr []"
proof -
  let ?s = "search_bill_openstates replay ''k'' [ok two_results, ok detail_education, status_only 500]
          ''education'' ''ga'' ''current'' 20"
  have run: "?s = (fst ?s, snd ?s)"
    by simp
  have "\<exists>x \<in> set (tl (trace (snd ?s))). summary_of (snd x) = None"
    by code_simp
  then have fail: "(\<exists>x \<in> set (tl (trace (snd ?s))). summary_of (snd x) = None)
             \<or> (\<exists>d bills. data (snd ?s) = Some d \<and> member_of d ''results'' = Some (JArr bills)
                  \<and> (\<exists>b \<in> set (take (nat 20) bills). detail_request_of ''k'' b = None))"
    by (rule disjI1)
  from failed_detail_fetch_gives_empty [OF run fail]
  show ?thesis .
qed

text \<open>
  C6. For every search whose list response is a success and a JSON object in which
  \<^verbatim>\<open>results\<close> is absent or the empty array, the function returns the empty list after
  the list request alone, and prints the line of line 54 and no error line.
\<close>

theorem no_results_no_fetch:
  assumes g: "get w (search_request api_key keyword jurisdiction session limit) = (Inr resp, w1)"
    and s: "\<not> (400 \<le> status_code resp \<and> status_code resp < 600)"
    and b: "body resp = Some (JObj kvs)"
    and r: "map_of kvs ''results'' = None \<or> map_of kvs ''results'' = Some (JArr [])"
  shows "search_bill_openstates get api_key w keyword jurisdiction session limit =
     (Inr [],
      \<lparr>world = w1,
       out = [searching_line keyword jurisdiction session, no_bills_line keyword jurisdiction],
       trace = [(search_request api_key keyword jurisdiction session limit, Inr resp)],
       response = Some resp, data = Some (JObj kvs), formatted_results = []\<rparr>)"
  using assms
  by (auto simp: search_bill_openstates_def try_body_unfold Let_def ebind_def raise_for_status_def
      json_of_def entry_state_def init_st_def print_def searching_line_def)

theorem no_results_no_fetch_witness:
  "fst (search_bill_openstates replay ''k'' [ok (JObj [(''results'', JArr [])]), ok detail_education]
          ''zoning'' ''ny'' ''current'' 20) = Inr []
   \<and> length (trace (snd (search_bill_openstates replay ''k''
          [ok (JObj [(''results'', JArr [])]), ok detail_education]
          ''zoning'' ''ny'' ''current'' 20))) = 1"
proof -
  let ?w = "[ok (JObj [(''results'', JArr [])]), ok detail_education]"
  have g: "replay ?w (search_request ''k'' ''zoning'' ''ny'' ''current'' 20)
             = (Inr \<lparr>status_code = 200, body = Some (JObj [(''results'', JArr [])])\<rparr>,
                [ok detail_education])"
    by (simp add: ok_def)
  have s: "\<not> (400 \<le> status_code \<lparr>status_code = 200, body = Some (JObj [(''results'', JArr [])])\<rparr>
              \<and> status_code \<lparr>status_code = 200, body = Some (JObj [(''results'', JArr [])])\<rparr> < 600)"
    by simp
  have b: "body \<lparr>status_code = 200, body = Some (JObj [(''results'', JArr [])])\<rparr>
             = Some (JObj [(''results'', JArr [])])"
    by simp
  have r: "map_of [(''results'', JArr [])] ''results'' = None
         \<or> map_of [(''results'', JArr [])] ''results'' = Some (JArr [])"
    by simp
  from no_results_no_fetch [where get = replay and w = ?w, OF g s b r]
  show ?thesis
    by simp
qed

text \<open>
  C7. For every input the function returns a list: no exception leaves it. Whenever the
  body of the \<^verbatim>\<open>try\<close> raises, be it for an HTTP error status, a failure of the
  transport, a missing key or anything else, the function prints at least one line and
  returns the empty list.
\<close>

theorem errors_never_escape:
  "(\<exists>rs st'. search_bill_openstates get api_key w keyword jurisdiction session limit = (Inr rs, st'))
   \<and> (\<forall>e st. try_body get api_key keyword jurisdiction session limit
                 (entry_state w keyword jurisdiction session) = (Inl e, st)
        \<longrightarrow> (\<exists>lines. lines \<noteq> [] \<and>
               search_bill_openstates get api_key w keyword jurisdiction session limit
                 = (Inr [], st\<lparr>out := out st @ lines\<rparr>)))"
proof -
  let ?t = "try_body get api_key keyword jurisdiction session limit
              (entry_state w keyword jurisdiction session)"
  have "\<exists>rs st'. search_bill_openstates get api_key w keyword jurisdiction session limit = (Inr rs, st')"
  proof (cases "fst ?t")
    case (Inl e)
    then obtain st where "?t = (Inl e, st)" by (cases ?t) auto
    from search_caught [OF this] show ?thesis by blast
  next
    case (Inr rs)
    then obtain st' where "?t = (Inr rs, st')" by (cases ?t) auto
    then show ?thesis by (simp add: search_bill_openstates_def)
  qed
  then show ?thesis
    using search_caught [of get api_key keyword jurisdiction session limit w] by blast
qed

theorem errors_never_escape_witness:
  "fst (search_bill_openstates replay ''k'' [status_only 500] ''tax'' ''ga'' ''current'' 20) = Inr []
   \<and> fst (search_bill_openstates replay ''k'' [ok two_results, ok detail_education, Inl TimedOut]
            ''tax'' ''ga'' ''current'' 20) = Inr []
   \<and> fst (search_bill_openstates replay ''k'' [ok (JObj [(''results'', JArr [JObj []])])]
            ''tax'' ''ga'' ''current'' 20) = Inr []"
proof -
  let ?t1 = "try_body replay ''k'' ''tax'' ''ga'' ''current'' 20
               (entry_state [status_only 500] ''tax'' ''ga'' ''current'')"
  let ?t2 = "try_body replay ''k'' ''tax'' ''ga'' ''current'' 20
               (entry_state [ok two_results, ok detail_education, Inl TimedOut] ''tax'' ''ga'' ''current'')"
  let ?t3 = "try_body replay ''k'' ''tax'' ''ga'' ''current'' 20
               (entry_state [ok (JObj [(''results'', JArr [JObj []])])] ''tax'' ''ga'' ''current'')"
  have "fst ?t1 = Inl (HTTPError 500)" by code_simp
  then obtain st1 where t1: "?t1 = (Inl (HTTPError 500), st1)" by (cases ?t1) auto
  have "fst ?t2 = Inl Timeout" by code_simp
  then obtain st2 where t2: "?t2 = (Inl Timeout, st2)" by (cases ?t2) auto
  have "fst ?t3 = Inl (KeyError (JStr ''id''))" by code_simp
  then obtain st3 where t3: "?t3 = (Inl (KeyError (JStr ''id'')), st3)" by (cases ?t3) auto
  from errors_never_escape [of replay "''k''" "[status_only 500]" "''tax''" "''ga''" "''current''" 20] t1
  have "fst (search_bill_openstates replay ''k'' [status_only 500] ''tax'' ''ga'' ''current'' 20) = Inr []"
    by auto
  moreover
  from errors_never_escape [of replay "''k''" "[ok two_results, ok detail_education, Inl TimedOut]"
      "''tax''" "''ga''" "''current''" 20] t2
  have "fst (search_bill_openstates replay ''k'' [ok two_results, ok detail_education, Inl TimedOut]
            ''tax'' ''ga'' ''current'' 20) = Inr []"
    by auto
  moreover
  from errors_never_escape [of replay "''k''" "[ok (JObj [(''results'', JArr [JObj []])])]"
      "''tax''" "''ga''" "''current''" 20] t3
  have "fst (search_bill_openstates replay ''k'' [ok (JObj [(''results'', JArr [JObj []])])]
            ''tax'' ''ga'' ''current'' 20) = Inr []"
    by auto
  ultimately show ?thesis by simp
qed

text \<open>
  C10. For every call with a limit that is not positive, the function returns the empty
  list and the list request is the only request it makes, whatever the list response.
\<close>

theorem nonpositive_limit_no_fetch:
  assumes "limit \<le> 0"
  shows "\<exists>st'. search_bill_openstates get api_key w keyword jurisdiction session limit = (Inr [], st')
      \<and> trace st' = [(search_request api_key keyword jurisdiction session limit,
                       fst (get w (search_request api_key keyword jurisdiction session limit)))]"
proof (cases "try_body get api_key keyword jurisdiction session limit
                (entry_state w keyword jurisdiction session)")
  case (Pair r st)
  from try_body_nonpositive [OF assms Pair]
  have t: "trace st = [(search_request api_key keyword jurisdiction session limit,
                       fst (get w (search_request api_key keyword jurisdiction session limit)))]"
    and rs: "\<forall>rs. r = Inr rs \<longrightarrow> rs = []"
    by simp_all
  show ?thesis
  proof (cases r)
    case (Inl e)
    with Pair search_caught [of get api_key keyword jurisdiction session limit w e st] t
    show ?thesis by auto
  next
    case (Inr rs')
    with Pair rs t show ?thesis
      by (simp add: search_bill_openstates_def)
  qed
qed

theorem nonpositive_limit_no_fetch_witness:
  "fst (search_bill_openstates replay ''k'' [ok two_results, ok detail_education]
          ''education'' ''ga'' ''current'' 0) = Inr []
   \<and> length (trace (snd (search_bill_openstates replay ''k'' [ok two_results, ok detail_education]
          ''education'' ''ga'' ''current'' 0))) = 1"
proof -
  have l: "(0::int) \<le> 0" by simp
  from nonpositive_limit_no_fetch [OF l, of replay "''k''" "[ok two_results, ok detail_education]"
      "''education''" "''ga''" "''current''"]
  show ?thesis
    by auto
qed

section \<open>The authentication hint\<close>

text \<open>
  The clause for \<^verbatim>\<open>HTTPError\<close> reads the status code from \<^verbatim>\<open>response\<close>, the local of
  the list request, whichever request raised. When the list request gets 401 or 403 the
  hint is printed. When the list request succeeds, the status code the clause reads is
  not an error status, so the hint is never printed, whatever a detail request gets.
\<close>

lemma try_body_out:
  assumes "try_body get api_key keyword jurisdiction session limit st = (r, st')"
    and "get (world st) (search_request api_key keyword jurisdiction session limit) = (Inr resp, w1)"
  shows "response st' = Some resp
       \<and> (out st' = out st \<or> out st' = out st @ [no_bills_line keyword jurisdiction])"
  using assms unfolding try_body_unfold
  by (auto simp: Let_def print_def split: prod.splits sum.splits if_splits dest!: loop_frame)

lemma handler_hint:
  assumes "handler e st = (r, st')" and "response st = Some resp"
    and "status_code resp \<noteq> 401" and "status_code resp \<noteq> 403"
    and "api_key_hint \<in> set (out st')"
  shows "api_key_hint \<in> set (out st)"
  using assms unfolding handler_def
  by (auto simp: Let_def print_def api_key_hint_def split: if_splits option.splits)

lemma auth_hint_on_search_failure:
  assumes g: "get w (search_request api_key keyword jurisdiction session limit) = (Inr resp, w1)"
    and s: "status_code resp = 401 \<or> status_code resp = 403"
  shows "\<exists>st'. search_bill_openstates get api_key w keyword jurisdiction session limit = (Inr [], st')
           \<and> api_key_hint \<in> set (out st')"
  using assms
  by (auto simp: search_bill_openstates_def try_body_unfold Let_def raise_for_status_def
        handler_def print_def)

lemma auth_hint_absent_after_list_success:
  assumes g: "get w (search_request api_key keyword jurisdiction session limit) = (Inr resp, w1)"
    and s: "\<not> (400 \<le> status_code resp \<and> status_code resp < 600)"
    and run: "search_bill_openstates get api_key w keyword jurisdiction session limit = (res, st')"
  shows "api_key_hint \<notin> set (out st')"
proof (cases "try_body get api_key keyword jurisdiction session limit
                (entry_state w keyword jurisdiction session)")
  case (Pair r st)
  from g have g': "get (world (entry_state w keyword jurisdiction session))
      (search_request api_key keyword jurisdiction session limit) = (Inr resp, w1)"
    by simp
  from try_body_out [OF Pair g'] have rsp: "response st = Some resp"
    and o: "out st = [searching_line keyword jurisdiction session]
          \<or> out st = [searching_line keyword jurisdiction session, no_bills_line keyword jurisdiction]"
    by (auto simp: entry_state_def print_def init_st_def)
  from o have clean: "api_key_hint \<notin> set (out st)"
    by (auto simp: api_key_hint_def searching_line_def no_bills_line_def)
  show ?thesis
  proof (cases r)
    case (Inl e)
    with Pair run have h: "handler e st = (res, st')"
      by (simp add: search_bill_openstates_def)
    from s have "status_code resp \<noteq> 401" "status_code resp \<noteq> 403" by auto
    from handler_hint [OF h rsp this] clean show ?thesis by blast
  next
    case (Inr rs)
    with Pair run clean show ?thesis
      by (simp add: search_bill_openstates_def)
  qed
qed

text \<open>
  C1. The claim is that a 401 or 403 on the list request or on any detail request gives
  the empty list and the hint to check the API key in the output. At a list response
  with one result whose detail request gets 401, the function returns the empty list,
  prints the error line with the status code 200 of the list response, and does not
  print the hint.
\<close>

theorem auth_hint_missing_on_detail_401:
  "fst (search_bill_openstates replay ''k'' [ok one_result, status_only 401]
          ''tax'' ''ga'' ''current'' 20) = Inr []
   \<and> trace (snd (search_bill_openstates replay ''k'' [ok one_result, status_only 401]
          ''tax'' ''ga'' ''current'' 20))
       = [(search_request ''k'' ''tax'' ''ga'' ''current'' 20, ok one_result),
          (detail_request ''k'' (JStr ''b1''), status_only 401)]
   \<and> out (snd (search_bill_openstates replay ''k'' [ok one_result, status_only 401]
          ''tax'' ''ga'' ''current'' 20))
       = [searching_line ''tax'' ''ga'' ''current'',
          [Lit ''HTTP error occurred: '', Exc (HTTPError 401), Lit '' (Status code: '', Num 200,
           Lit '')'']]
   \<and> api_key_hint \<notin> set (out (snd (search_bill_openstates replay ''k''
          [ok one_result, status_only 401] ''tax'' ''ga'' ''current'' 20)))"
proof -
  let ?s = "search_bill_openstates replay ''k'' [ok one_result, status_only 401]
          ''tax'' ''ga'' ''current'' 20"
  have a: "fst ?s = Inr []"
    by code_simp
  have b: "trace (snd ?s)
       = [(search_request ''k'' ''tax'' ''ga'' ''current'' 20, ok one_result),
          (detail_request ''k'' (JStr ''b1''), status_only 401)]"
    by code_simp
  have c: "out (snd ?s)
       = [searching_line ''tax'' ''ga'' ''current'',
          [Lit ''HTTP error occurred: '', Exc (HTTPError 401), Lit '' (Status code: '', Num 200,
           Lit '')'']]"
    by code_simp
  have d: "api_key_hint \<notin> set (out (snd ?s))"
    unfolding c by (simp add: api_key_hint_def searching_line_def)
  from a b c d show ?thesis by blast
qed

end
